theory Spec2Isabelle
  imports Main "HOL-Library.Word"
begin

unbundle bit_operations_syntax

section \<open>The GX2 command-buffer pool (gx2\_cbpool.cpp)\<close>

text \<open>
  Conventions of the embedding.
  \<^item> A \<^verbatim>\<open>uint32_t\<close> is a \<open>32 word\<close>; its order is the unsigned one.
  \<^item> A \<^verbatim>\<open>uint32_t *\<close> is an \<open>int\<close>: the address counted in 32-bit words, so that
    \<^verbatim>\<open>p + n\<close> is \<open>p + uint n\<close> and \<^verbatim>\<open>q - p\<close> (a \<^verbatim>\<open>ptrdiff_t\<close>) is \<open>q - p\<close>.
    \<^verbatim>\<open>nullptr\<close> is address 0. A \<^verbatim>\<open>ptrdiff_t\<close> is taken to be wider than 32 bits
    (a 64-bit host), so a comparison of a \<^verbatim>\<open>uint32_t\<close> with a pointer difference is
    the comparison of the two integers, and \<^verbatim>\<open>static_cast<uint32_t>\<close> of a pointer
    difference is \<open>word_of_int\<close> (reduction modulo \<open>2 ^ 32\<close>).
  \<^item> \<^verbatim>\<open>decaf_check\<close> and \<^verbatim>\<open>decaf_abort\<close> end the process: the result \<open>Inl Abort\<close>.
  \<^item> The mutex of the three pool operations is held for the whole call, so each
    of them is one atomic step on the pool state.
\<close>

type_synonym u32 = "32 word"
type_synonym ptr = int

definition nullptr :: ptr where
  "nullptr = 0"

datatype error = Abort | Blocked

text \<open>\<^verbatim>\<open>static_cast<uint32_t>(d)\<close> for a pointer difference \<open>d\<close>.\<close>

definition cast_u32 :: "int \<Rightarrow> u32" where
  "cast_u32 d = word_of_int d"

subsection \<open>The ring: the statics \<^verbatim>\<open>sBufferPool*\<close>\<close>

record pool =
  sBufferPoolBase :: ptr
  sBufferPoolEnd :: ptr
  sBufferPoolHeadPtr :: ptr
  sBufferPoolTailPtr :: ptr
  sBufferPoolSkipped :: u32

text \<open>
  The common end of \<^verbatim>\<open>allocateFromPool\<close> (lines 115 to 120): cap the grant at
  \<^verbatim>\<open>0x20000\<close> words, advance the head, return the old head and the granted size.
\<close>

definition grant :: "pool \<Rightarrow> u32 \<Rightarrow> error + (pool \<times> ptr \<times> u32)" where
  "grant s availableSize =
     (let allocatedSize = min 0x20000 availableSize;
          allocatedBuffer = sBufferPoolHeadPtr s
      in Inr (s\<lparr>sBufferPoolHeadPtr := sBufferPoolHeadPtr s + uint allocatedSize\<rparr>,
              allocatedBuffer, allocatedSize))"

text \<open>
  \<^verbatim>\<open>allocateFromPool(wantedSize, allocatedSize)\<close>. The third argument is the value
  the reference \<^verbatim>\<open>allocatedSize\<close> holds on entry: the two \<^verbatim>\<open>return nullptr\<close>
  leave it as it is. The result is the new pool, the returned pointer and the
  value of \<^verbatim>\<open>allocatedSize\<close> on return.
\<close>

definition allocateFromPool :: "pool \<Rightarrow> u32 \<Rightarrow> u32 \<Rightarrow> error + (pool \<times> ptr \<times> u32)" where
  "allocateFromPool s wantedSize0 allocatedSize0 =
     (let wantedSize = max 0x100 wantedSize0 in
      if uint wantedSize > sBufferPoolEnd s - sBufferPoolBase s then Inl Abort
      else if sBufferPoolTailPtr s = nullptr then
        (if sBufferPoolHeadPtr s \<noteq> sBufferPoolBase s then Inl Abort
         else grant (s\<lparr>sBufferPoolTailPtr := sBufferPoolHeadPtr s\<rparr>)
                (cast_u32 (sBufferPoolEnd s - sBufferPoolBase s)))
      else if sBufferPoolHeadPtr s < sBufferPoolTailPtr s then
        (let availableSize = cast_u32 (sBufferPoolTailPtr s - sBufferPoolHeadPtr s) in
         if availableSize < wantedSize then Inr (s, nullptr, allocatedSize0)
         else grant s availableSize)
      else
        (let availableSize = cast_u32 (sBufferPoolEnd s - sBufferPoolHeadPtr s) in
         if availableSize < wantedSize then
           (let availableSize' = cast_u32 (sBufferPoolTailPtr s - sBufferPoolBase s) in
            if availableSize' < wantedSize then Inr (s, nullptr, allocatedSize0)
            else grant (s\<lparr>sBufferPoolSkipped :=
                               cast_u32 (sBufferPoolEnd s - sBufferPoolHeadPtr s),
                            sBufferPoolHeadPtr := sBufferPoolBase s\<rparr>)
                   availableSize')
         else grant s availableSize))"

definition returnToPool :: "pool \<Rightarrow> ptr \<Rightarrow> u32 \<Rightarrow> u32 \<Rightarrow> error + pool" where
  "returnToPool s buf usedSize originalSize =
     (if \<not> originalSize \<ge> usedSize then Inl Abort
      else if originalSize = usedSize then Inr s
      else if sBufferPoolHeadPtr s \<noteq> buf + uint originalSize then Inl Abort
      else Inr (s\<lparr>sBufferPoolHeadPtr := buf + uint usedSize\<rparr>))"

text \<open>The first statement of \<^verbatim>\<open>freeToPool\<close>: the wrap gap is consumed.\<close>

definition consumeGap :: "pool \<Rightarrow> pool" where
  "consumeGap s =
     (if sBufferPoolTailPtr s + uint (sBufferPoolSkipped s) = sBufferPoolEnd s
      then s\<lparr>sBufferPoolSkipped := 0, sBufferPoolTailPtr := sBufferPoolBase s\<rparr>
      else s)"

definition freeToPool :: "pool \<Rightarrow> ptr \<Rightarrow> u32 \<Rightarrow> error + pool" where
  "freeToPool s buf sz =
     (let s1 = consumeGap s in
      if sBufferPoolTailPtr s1 \<noteq> buf then Inl Abort
      else
        (let s2 = s1\<lparr>sBufferPoolTailPtr := sBufferPoolTailPtr s1 + uint sz\<rparr> in
         if sBufferPoolTailPtr s2 = sBufferPoolHeadPtr s2
         then Inr (s2\<lparr>sBufferPoolHeadPtr := sBufferPoolBase s2, sBufferPoolTailPtr := nullptr\<rparr>)
         else Inr s2))"

subsection \<open>Well-formed rings and runs of the allocator\<close>





text \<open>The empty ring: \<^verbatim>\<open>tail = nullptr\<close>, \<^verbatim>\<open>head = base\<close>, \<^verbatim>\<open>skipped = 0\<close>.\<close>

definition isEmpty :: "pool \<Rightarrow> bool" where
  "isEmpty s \<longleftrightarrow>
     sBufferPoolTailPtr s = nullptr \<and> sBufferPoolHeadPtr s = sBufferPoolBase s \<and>
     sBufferPoolSkipped s = 0"

text \<open>
  A run of allocations that all succeed: \<open>allocateAll s ws\<close> calls
  \<^verbatim>\<open>allocateFromPool\<close> for each wanted size in turn and collects the returned
  buffers with their granted sizes; it is \<open>None\<close> when a call aborts or
  returns \<^verbatim>\<open>nullptr\<close>. \<open>freeAll\<close> retires a list of buffers in order.
\<close>

fun allocateAll :: "pool \<Rightarrow> u32 list \<Rightarrow> (pool \<times> (ptr \<times> u32) list) option" where
  "allocateAll s [] = Some (s, [])"
| "allocateAll s (w # ws) =
     (case allocateFromPool s w 0 of
        Inl e \<Rightarrow> None
      | Inr (s', p, g) \<Rightarrow>
          if p = nullptr then None
          else (case allocateAll s' ws of
                  None \<Rightarrow> None
                | Some (s'', gs) \<Rightarrow> Some (s'', (p, g) # gs)))"

fun freeAll :: "pool \<Rightarrow> (ptr \<times> u32) list \<Rightarrow> error + pool" where
  "freeAll s [] = Inr s"
| "freeAll s ((p, g) # gs) =
     (case freeToPool s p g of Inl e \<Rightarrow> Inl e | Inr s' \<Rightarrow> freeAll s' gs)"

text \<open>\<open>tiles a gs b\<close>: the buffers \<open>gs\<close>, none of them empty, lie end to end from \<open>a\<close> to \<open>b\<close>.\<close>

fun tiles :: "ptr \<Rightarrow> (ptr \<times> u32) list \<Rightarrow> ptr \<Rightarrow> bool" where
  "tiles a [] b \<longleftrightarrow> a = b"
| "tiles a ((p, g) # gs) b \<longleftrightarrow> p = a \<and> 0 < uint g \<and> tiles (a + uint g) gs b"

text \<open>Rings used as concrete inputs: a pool of \<open>n\<close> words at word address 4096.\<close>

definition ringAt :: "int \<Rightarrow> ptr \<Rightarrow> ptr \<Rightarrow> u32 \<Rightarrow> pool" where
  "ringAt n h t k =
     \<lparr>sBufferPoolBase = 4096, sBufferPoolEnd = 4096 + n, sBufferPoolHeadPtr = h,
      sBufferPoolTailPtr = t, sBufferPoolSkipped = k\<rparr>"

subsection \<open>Buffer descriptors and padding\<close>

text \<open>
  Modelled from the spec: \<^verbatim>\<open>pm4::Buffer\<close> is declared in \<^verbatim>\<open>gpu/pm4_buffer.h\<close>, which is
  not among the sources. The record has the fields of the specification's buffer
  descriptor, \<^verbatim>\<open>{buffer, curSize, maxSize, displayList, submitTime, next}\<close>, with the
  types this file uses them at: the sizes are \<^verbatim>\<open>uint32_t\<close>, \<^verbatim>\<open>buffer\<close> is a
  \<^verbatim>\<open>uint32_t *\<close>, \<^verbatim>\<open>next\<close> is a pointer to a descriptor. A pointer to a descriptor
  is a natural number, 0 for \<^verbatim>\<open>nullptr\<close>. The field \<^verbatim>\<open>next\<close> is named \<open>nextPtr\<close>
  here.
\<close>

type_synonym bufptr = nat

record Buffer =
  displayList :: bool
  submitTime :: nat
  curSize :: u32
  maxSize :: u32
  buffer :: ptr
  nextPtr :: bufptr

text \<open>The words of host memory, by word address.\<close>

type_synonym memory = "ptr \<Rightarrow> u32"

text \<open>
  Modelled from the spec: \<^verbatim>\<open>byte_swap\<close> comes from a header that is not among the
  sources. It is the host-to-device byte swap of the specification: the four
  bytes of the word in reverse order.
\<close>

definition byte_swap :: "u32 \<Rightarrow> u32" where
  "byte_swap x =
     push_bit 24 (x AND 0xFF) OR push_bit 8 (x AND 0xFF00) OR
     (drop_bit 8 x AND 0xFF00) OR drop_bit 24 x"

text \<open>
  Modelled from the spec: \<^verbatim>\<open>align_up\<close> is declared in \<^verbatim>\<open>common/align.h\<close>, which is not
  among the sources. It rounds its first argument up to the next multiple of the
  second; the result has the type of the first argument, \<^verbatim>\<open>uint32_t\<close> here.
  Where the rounded value does not fit 32 bits the specification does not say
  what it is: the definition reduces it modulo \<open>2 ^ 32\<close>, and the theorems
  about padding are stated for descriptors where the rounded value fits.
\<close>

definition align_up :: "u32 \<Rightarrow> nat \<Rightarrow> u32" where
  "align_up v a = word_of_nat ((unat v + (a - 1)) div a * a)"

text \<open>
  The loop of \<^verbatim>\<open>padCommandBuffer\<close>:
  \<^verbatim>\<open>while (curSize < alignedSize) buffer[curSize++] = byte_swap(0xBEEF2929)\<close>.
\<close>

function padLoop :: "Buffer \<Rightarrow> memory \<Rightarrow> u32 \<Rightarrow> Buffer \<times> memory" where
  "padLoop b m alignedSize =
     (if curSize b < alignedSize
      then padLoop (b\<lparr>curSize := curSize b + 1\<rparr>)
             (m(buffer b + uint (curSize b) := byte_swap 0xBEEF2929)) alignedSize
      else (b, m))"
  by pat_completeness auto
termination
proof (relation "measure (\<lambda>(b, m, a). unat a - unat (curSize b))")
  show "wf (measure (\<lambda>(b, m, a). unat a - unat (curSize b)))" by simp
next
  fix b :: Buffer and m :: memory and alignedSize :: u32
  assume lt: "curSize b < alignedSize"
  then have less: "unat (curSize b) < unat alignedSize"
    by (simp add: word_less_nat_alt)
  moreover have "unat alignedSize < 2 ^ 32"
    using unsigned_less [of alignedSize] by simp
  ultimately have "unat (curSize b) + unat (1 :: u32) < 2 ^ LENGTH(32)"
    by simp
  then have "unat (curSize b + 1) = unat (curSize b) + unat (1 :: u32)"
    by (simp only: unat_add_lem)
  with less show "((b\<lparr>curSize := curSize b + 1\<rparr>,
        m(buffer b + uint (curSize b) := byte_swap 0xBEEF2929), alignedSize),
       b, m, alignedSize) \<in> measure (\<lambda>(b, m, a). unat a - unat (curSize b))"
    by simp
qed

declare padLoop.simps [simp del]

text \<open>
  \<^verbatim>\<open>padCommandBuffer(buffer)\<close> on the descriptor \<open>b\<close> and the memory \<open>m\<close>. The
  granule is \<^verbatim>\<open>32 / 4\<close>, that is 8 words.
\<close>

definition padCommandBuffer :: "Buffer \<Rightarrow> memory \<Rightarrow> error + (Buffer \<times> memory)" where
  "padCommandBuffer b m =
     (let alignedSize = align_up (curSize b) (32 div 4) in
      if \<not> alignedSize \<le> maxSize b then Inl Abort
      else Inr (padLoop b m alignedSize))"

text \<open>
  \<open>filled m p lo hi\<close> is the memory \<open>m\<close> with the filler word stored at
  \<open>p[lo]\<close>, \<dots>, \<open>p[hi - 1]\<close>. \<open>roundUp8 n\<close> is \<open>n\<close> rounded up to the next
  multiple of 8.
\<close>

definition filled :: "memory \<Rightarrow> ptr \<Rightarrow> nat \<Rightarrow> nat \<Rightarrow> memory" where
  "filled m p lo hi =
     (\<lambda>a. if p + int lo \<le> a \<and> a < p + int hi then byte_swap 0xBEEF2929 else m a)"

definition roundUp8 :: "nat \<Rightarrow> nat" where
  "roundUp8 n = (n + 7) div 8 * 8"

text \<open>Concrete inputs: a memory of zeros and a display-list descriptor at word 8192.\<close>

definition zeroMemory :: memory where
  "zeroMemory = (\<lambda>a. 0)"

definition bufferAt :: "u32 \<Rightarrow> u32 \<Rightarrow> Buffer" where
  "bufferAt c mx =
     \<lparr>displayList = True, submitTime = 0, curSize = c, maxSize = mx,
      buffer = 8192, nextPtr = 0\<rparr>"

subsection \<open>The process state and the lease manager\<close>

text \<open>
  The statics of the file and what they point to. \<open>ring\<close> holds the five
  \<^verbatim>\<open>sBufferPool*\<close> pointers and counters, \<open>objects\<close> the \<^verbatim>\<open>pm4::Buffer\<close> objects by
  address, \<open>allocated\<close> the number of objects made with \<^verbatim>\<open>new\<close> so far (the next
  one gets the next address), \<open>hostMemory\<close> the words the buffers point to.
  \<^verbatim>\<open>sActiveBuffer\<close> is indexed by the core id; the caller's core id, the result of
  \<^verbatim>\<open>OSGetCoreId()\<close>, is an argument of each operation.

  Modelled from the spec: the collaborators that are not among the sources.
  \<open>mainCoreId\<close> is the result of \<^verbatim>\<open>getMainCoreId()\<close>; \<open>gLog\<close> collects the
  warnings written with \<^verbatim>\<open>gLog->warn\<close>; \<open>gpuQueue\<close> is the queue of the GPU
  driver, in submission order; \<open>displayListOverrun\<close> is the callback of the guest.
\<close>

record state =
  sBufferItemPool :: bufptr
  sBufferPoolLeased :: bool
  ring :: pool
  sActiveBuffer :: "nat \<Rightarrow> bufptr"
  objects :: "bufptr \<Rightarrow> Buffer"
  allocated :: nat
  hostMemory :: memory
  gpuQueue :: "bufptr list"
  gLog :: "string list"
  mainCoreId :: nat
  displayListOverrun :: "ptr \<Rightarrow> u32 \<Rightarrow> u32 \<Rightarrow> ptr \<times> u32"

text \<open>The object \<^verbatim>\<open>new pm4::Buffer()\<close> makes; every caller overwrites all but \<open>nextPtr\<close>.\<close>

definition newBuffer :: Buffer where
  "newBuffer =
     \<lparr>displayList = False, submitTime = 0, curSize = 0, maxSize = 0,
      buffer = nullptr, nextPtr = 0\<rparr>"

text \<open>
  \<^verbatim>\<open>allocateBufferObj\<close> and \<^verbatim>\<open>freeBufferObj\<close>, run by one thread at a time: the
  compare-and-swap succeeds, so the loops run their body once.
\<close>

definition allocateBufferObj :: "state \<Rightarrow> state \<times> bufptr" where
  "allocateBufferObj s =
     (let buf = sBufferItemPool s in
      if buf = 0 then
        (let fresh = allocated s + 1 in
         (s\<lparr>objects := (objects s)(fresh := newBuffer), allocated := fresh\<rparr>, fresh))
      else (s\<lparr>sBufferItemPool := nextPtr (objects s buf)\<rparr>, buf))"

definition freeBufferObj :: "state \<Rightarrow> bufptr \<Rightarrow> state" where
  "freeBufferObj s cb =
     s\<lparr>objects := (objects s)(cb := (objects s cb)\<lparr>nextPtr := sBufferItemPool s\<rparr>),
       sBufferItemPool := cb\<rparr>"

text \<open>
  Modelled from the spec: \<^verbatim>\<open>gpu::queueCommandBuffer\<close> is not among the sources; it
  enqueues the descriptor to the GPU.
\<close>

definition queueCommandBuffer :: "state \<Rightarrow> bufptr \<Rightarrow> state" where
  "queueCommandBuffer s cb = s\<lparr>gpuQueue := gpuQueue s @ [cb]\<rparr>"

definition freeCommandBuffer :: "state \<Rightarrow> bufptr \<Rightarrow> error + state" where
  "freeCommandBuffer s cb =
     (let b = objects s cb in
      if curSize b \<noteq> maxSize b then Inl Abort
      else if \<not> displayList b then
        (case freeToPool (ring s) (buffer b) (maxSize b) of
           Inl e \<Rightarrow> Inl e
         | Inr r \<Rightarrow> Inr (freeBufferObj (s\<lparr>ring := r\<rparr>) cb))
      else Inr (freeBufferObj s cb))"

text \<open>
  Modelled from the spec: \<^verbatim>\<open>GX2WaitTimeStamp(GX2GetRetiredTimeStamp() + 1)\<close> is the
  retired-timestamp service, which is not among the sources. It blocks until
  the GPU has retired one more buffer; the GPU retires the queued buffers in
  submission order and calls \<^verbatim>\<open>freeCommandBuffer\<close> for each. Here the wait lets
  the GPU retire the oldest queued buffer; with nothing queued it never
  returns, the result \<open>Inl Blocked\<close>.
\<close>

definition GX2WaitTimeStamp :: "state \<Rightarrow> error + state" where
  "GX2WaitTimeStamp s =
     (case gpuQueue s of
        [] \<Rightarrow> Inl Blocked
      | cb # q \<Rightarrow> freeCommandBuffer (s\<lparr>gpuQueue := q\<rparr>) cb)"

text \<open>
  The loop of \<^verbatim>\<open>allocateCommandBuffer\<close>: \<^verbatim>\<open>allocatedBuffer\<close> is \<^verbatim>\<open>nullptr\<close> on entry,
  so the body runs at least once. Every wait takes one buffer off the GPU
  queue, which bounds the number of rounds.
\<close>

function allocateLoop :: "state \<Rightarrow> u32 \<Rightarrow> u32 \<Rightarrow> error + (state \<times> ptr \<times> u32)" where
  "allocateLoop s sz allocatedSize =
     (case allocateFromPool (ring s) sz allocatedSize of
        Inl e \<Rightarrow> Inl e
      | Inr (r, allocatedBuffer, allocatedSize') \<Rightarrow>
          if allocatedBuffer \<noteq> nullptr
          then Inr (s\<lparr>ring := r\<rparr>, allocatedBuffer, allocatedSize')
          else (case GX2WaitTimeStamp (s\<lparr>ring := r\<rparr>) of
                  Inl e \<Rightarrow> Inl e
                | Inr s' \<Rightarrow> allocateLoop s' sz allocatedSize'))"
  by pat_completeness auto
termination
proof (relation "measure (\<lambda>(s, sz, a). length (gpuQueue s))")
  show "wf (measure (\<lambda>(s, sz, a). length (gpuQueue s)))" by simp
next
  fix s :: state and sz allocatedSize :: u32 and x r y allocatedBuffer allocatedSize' s'
  assume "GX2WaitTimeStamp (s\<lparr>ring := r\<rparr>) = Inr s'"
  then have "length (gpuQueue s') < length (gpuQueue s)"
    by (auto simp: GX2WaitTimeStamp_def freeCommandBuffer_def freeBufferObj_def Let_def
          split: list.splits if_splits sum.splits)
  then show "((s', sz, allocatedSize'), s, sz, allocatedSize)
      \<in> measure (\<lambda>(s, sz, a). length (gpuQueue s))"
    by simp
qed

declare allocateLoop.simps [simp del]

definition allocateCommandBuffer :: "state \<Rightarrow> nat \<Rightarrow> u32 \<Rightarrow> error + (state \<times> bufptr)" where
  "allocateCommandBuffer s core sz =
     (if sBufferPoolLeased s then Inl Abort
      else if mainCoreId s \<noteq> core then
        Inr (s\<lparr>gLog := gLog s @
                 [''Tried to allocate command buffer on non-main graphics core'']\<rparr>, 0)
      else
        (case allocateLoop s sz 0 of
           Inl e \<Rightarrow> Inl e
         | Inr (s1, allocatedBuffer, allocatedSize) \<Rightarrow>
             (case allocateBufferObj s1 of
                (s2, cb) \<Rightarrow>
                  Inr (s2\<lparr>objects := (objects s2)
                            (cb := (objects s2 cb)
                               \<lparr>displayList := False, submitTime := 0, curSize := 0,
                                maxSize := allocatedSize, buffer := allocatedBuffer\<rparr>),
                          sBufferPoolLeased := True\<rparr>, cb))))"

definition flushActiveCommandBuffer :: "state \<Rightarrow> nat \<Rightarrow> error + state" where
  "flushActiveCommandBuffer s core =
     (let cb = sActiveBuffer s core in
      if cb = 0 then Inl Abort
      else if displayList (objects s cb) then Inl Abort
      else if \<not> sBufferPoolLeased s then Inl Abort
      else
        (let s1 = s\<lparr>sBufferPoolLeased := False\<rparr>; b = objects s1 cb in
         case returnToPool (ring s1) (buffer b) (curSize b) (maxSize b) of
           Inl e \<Rightarrow> Inl e
         | Inr r \<Rightarrow>
             (let s2 = s1\<lparr>ring := r, objects := (objects s1)(cb := b\<lparr>maxSize := curSize b\<rparr>)\<rparr>;
                  s3 = (if curSize b = 0 then freeBufferObj s2 cb else queueCommandBuffer s2 cb)
              in Inr (s3\<lparr>sActiveBuffer := (sActiveBuffer s3)(core := 0)\<rparr>))))"

definition flushCommandBuffer :: "state \<Rightarrow> nat \<Rightarrow> u32 \<Rightarrow> error + (state \<times> bufptr)" where
  "flushCommandBuffer s core neededSize =
     (let cb = sActiveBuffer s core in
      if cb = 0 then Inl Abort
      else if displayList (objects s cb) then
        (case padCommandBuffer (objects s cb) (hostMemory s) of
           Inl e \<Rightarrow> Inl e
         | Inr (b, m) \<Rightarrow>
             (case displayListOverrun s (buffer b) (curSize b * 4) (neededSize * 4) of
                (newList, newSize) \<Rightarrow>
                  if newList = nullptr \<or> newSize = 0 then Inl Abort
                  else Inr (s\<lparr>hostMemory := m,
                              objects := (objects s)
                                (cb := b\<lparr>buffer := newList, curSize := 0,
                                         maxSize := newSize div 4\<rparr>)\<rparr>, cb)))
      else
        (case flushActiveCommandBuffer s core of
           Inl e \<Rightarrow> Inl e
         | Inr s1 \<Rightarrow>
             (case allocateCommandBuffer s1 core neededSize of
                Inl e \<Rightarrow> Inl e
              | Inr (s2, cb') \<Rightarrow>
                  Inr (s2\<lparr>sActiveBuffer := (sActiveBuffer s2)(core := cb')\<rparr>, cb'))))"

definition initCommandBufferPool :: "state \<Rightarrow> nat \<Rightarrow> ptr \<Rightarrow> u32 \<Rightarrow> error + state" where
  "initCommandBufferPool s core base sz =
     (if mainCoreId s \<noteq> core then Inl Abort
      else
        (let s1 = s\<lparr>ring := (ring s)
                     \<lparr>sBufferPoolBase := base, sBufferPoolEnd := base + uint sz,
                      sBufferPoolHeadPtr := base, sBufferPoolTailPtr := nullptr\<rparr>\<rparr>
         in case allocateCommandBuffer s1 core 0x100 of
              Inl e \<Rightarrow> Inl e
            | Inr (s2, cb) \<Rightarrow> Inr (s2\<lparr>sActiveBuffer := (sActiveBuffer s2)(core := cb)\<rparr>)))"

text \<open>
  Concrete states. \<open>exampleState r l\<close> has the ring \<open>r\<close>, the lease flag \<open>l\<close>,
  main core 0, no descriptor and nothing queued. \<open>flushExample\<close> is a pool of
  \<open>0x40000\<close> words whose first lease of \<open>0x20000\<close> words, the active buffer of
  core 0, holds 101 words; \<open>flushedActive\<close> and \<open>flushed\<close> are that state after
  \<^verbatim>\<open>flushActiveCommandBuffer\<close> and after \<^verbatim>\<open>flushCommandBuffer(256)\<close>.
  \<open>emptyLeaseExample\<close> is \<open>flushExample\<close> with nothing written to the lease, and
  \<open>releasedExample\<close> that state after \<^verbatim>\<open>flushActiveCommandBuffer\<close>. \<open>initialised\<close>
  is the state after \<^verbatim>\<open>initCommandBufferPool\<close> on a state whose \<open>skipped\<close> is 5.
\<close>

definition exampleState :: "pool \<Rightarrow> bool \<Rightarrow> state" where
  "exampleState r l =
     \<lparr>sBufferItemPool = 0, sBufferPoolLeased = l, ring = r, sActiveBuffer = (\<lambda>c. 0),
      objects = (\<lambda>p. newBuffer), allocated = 0, hostMemory = zeroMemory, gpuQueue = [],
      gLog = [], mainCoreId = 0, displayListOverrun = (\<lambda>p u n. (nullptr, 0))\<rparr>"

definition leaseAt :: "ptr \<Rightarrow> u32 \<Rightarrow> u32 \<Rightarrow> Buffer" where
  "leaseAt p c mx =
     \<lparr>displayList = False, submitTime = 0, curSize = c, maxSize = mx,
      buffer = p, nextPtr = 0\<rparr>"

definition flushExample :: state where
  "flushExample =
     (exampleState (ringAt 0x40000 (4096 + 0x20000) 4096 0) True)
       \<lparr>sActiveBuffer := (\<lambda>c. 0)(0 := 7),
        objects := (\<lambda>p. newBuffer)(7 := leaseAt 4096 101 0x20000),
        allocated := 7\<rparr>"

definition flushedActive :: state where
  "flushedActive =
     flushExample
       \<lparr>sBufferPoolLeased := False,
        ring := ringAt 0x40000 (4096 + 101) 4096 0,
        sActiveBuffer := (\<lambda>c. 0),
        objects := (\<lambda>p. newBuffer)(7 := leaseAt 4096 101 101),
        gpuQueue := [7]\<rparr>"

definition flushed :: state where
  "flushed =
     flushExample
       \<lparr>sBufferPoolLeased := True,
        ring := ringAt 0x40000 (4096 + 101 + 0x20000) 4096 0,
        sActiveBuffer := (\<lambda>c. 0)(0 := 8),
        objects := (\<lambda>p. newBuffer)
          (7 := leaseAt 4096 101 101, 8 := leaseAt (4096 + 101) 0 0x20000),
        allocated := 8, gpuQueue := [7]\<rparr>"

definition emptyLeaseExample :: state where
  "emptyLeaseExample =
     flushExample\<lparr>objects := (\<lambda>p. newBuffer)(7 := leaseAt 4096 0 0x20000)\<rparr>"

definition releasedExample :: state where
  "releasedExample =
     flushExample
       \<lparr>sBufferItemPool := 7,
        sBufferPoolLeased := False,
        ring := ringAt 0x40000 4096 4096 0,
        sActiveBuffer := (\<lambda>c. 0),
        objects := (\<lambda>p. newBuffer)(7 := leaseAt 4096 0 0)\<rparr>"

definition initialised :: state where
  "initialised =
     (exampleState (ringAt 0x40000 (4096 + 0x20000) 4096 5) True)
       \<lparr>sActiveBuffer := (\<lambda>c. 0)(0 := 1),
        objects := (\<lambda>p. newBuffer)(1 := leaseAt 4096 0 0x20000),
        allocated := 1\<rparr>"

section \<open>Properties of the pool allocator\<close>

subsection \<open>Arithmetic of the casts\<close>

lemma uint_cast_u32: "0 \<le> d \<Longrightarrow> d < 2 ^ 32 \<Longrightarrow> uint (cast_u32 d) = d"
  by (simp add: cast_u32_def uint_word_of_int)

lemma uint_cast_u32_le: "0 \<le> d \<Longrightarrow> uint (cast_u32 d) \<le> d"
  by (simp add: cast_u32_def uint_word_of_int zmod_le_nonneg_dividend)

lemma uint_min32: "uint (min a (b::u32)) = min (uint a) (uint b)"
  by (simp add: min_def word_le_def)

lemma uint_max32: "uint (max a (b::u32)) = max (uint a) (uint b)"
  by (simp add: max_def word_le_def)

lemma word_not_less_max: "\<not> (x::u32) < max 0x100 w \<Longrightarrow> 256 \<le> uint x"
  by (simp add: word_less_def uint_max32)

subsection \<open>The five ways \<^verbatim>\<open>allocateFromPool\<close> returns\<close>

text \<open>
  A call that does not abort either returns \<^verbatim>\<open>nullptr\<close> with the pool untouched,
  or grants from the empty ring, from the segment below the tail, from the
  trailing segment, or from the leading segment after recording the wrap gap.
\<close>

lemma allocateFromPool_cases:
  assumes "allocateFromPool s w a = Inr (s', p, g)"
  shows
    "(p = nullptr \<and> s' = s \<and> g = a \<and> sBufferPoolTailPtr s \<noteq> nullptr) \<or>
     (sBufferPoolTailPtr s = nullptr \<and> sBufferPoolHeadPtr s = sBufferPoolBase s \<and>
      uint (max 0x100 w) \<le> sBufferPoolEnd s - sBufferPoolBase s \<and>
      g = min 0x20000 (cast_u32 (sBufferPoolEnd s - sBufferPoolBase s)) \<and>
      p = sBufferPoolBase s \<and>
      s' = s\<lparr>sBufferPoolTailPtr := sBufferPoolBase s,
              sBufferPoolHeadPtr := sBufferPoolBase s + uint g\<rparr>) \<or>
     (sBufferPoolTailPtr s \<noteq> nullptr \<and> sBufferPoolHeadPtr s < sBufferPoolTailPtr s \<and>
      \<not> cast_u32 (sBufferPoolTailPtr s - sBufferPoolHeadPtr s) < max 0x100 w \<and>
      g = min 0x20000 (cast_u32 (sBufferPoolTailPtr s - sBufferPoolHeadPtr s)) \<and>
      p = sBufferPoolHeadPtr s \<and>
      s' = s\<lparr>sBufferPoolHeadPtr := sBufferPoolHeadPtr s + uint g\<rparr>) \<or>
     (sBufferPoolTailPtr s \<noteq> nullptr \<and> sBufferPoolTailPtr s \<le> sBufferPoolHeadPtr s \<and>
      \<not> cast_u32 (sBufferPoolEnd s - sBufferPoolHeadPtr s) < max 0x100 w \<and>
      g = min 0x20000 (cast_u32 (sBufferPoolEnd s - sBufferPoolHeadPtr s)) \<and>
      p = sBufferPoolHeadPtr s \<and>
      s' = s\<lparr>sBufferPoolHeadPtr := sBufferPoolHeadPtr s + uint g\<rparr>) \<or>
     (sBufferPoolTailPtr s \<noteq> nullptr \<and> sBufferPoolTailPtr s \<le> sBufferPoolHeadPtr s \<and>
      cast_u32 (sBufferPoolEnd s - sBufferPoolHeadPtr s) < max 0x100 w \<and>
      \<not> cast_u32 (sBufferPoolTailPtr s - sBufferPoolBase s) < max 0x100 w \<and>
      g = min 0x20000 (cast_u32 (sBufferPoolTailPtr s - sBufferPoolBase s)) \<and>
      p = sBufferPoolBase s \<and>
      s' = s\<lparr>sBufferPoolSkipped := cast_u32 (sBufferPoolEnd s - sBufferPoolHeadPtr s),
              sBufferPoolHeadPtr := sBufferPoolBase s + uint g\<rparr>)"
  using assms
  by (simp add: allocateFromPool_def grant_def Let_def del: max_less_iff_conj split: if_splits) auto

subsection \<open>The bounds of the ring in every run\<close>










subsection \<open>Retirement\<close>

text \<open>
  Claim C4. For every call \<^verbatim>\<open>freeToPool(buffer, words)\<close> with the tail not the
  sentinel: first, if \<open>tail + skipped = end\<close>, \<open>skipped\<close> becomes 0 and the tail
  the base; then the call aborts exactly when the tail differs from \<open>buffer\<close>;
  otherwise the tail advances by \<open>words\<close>, and if it then equals the head the ring
  is reset to \<open>head = base\<close>, \<open>tail = nullptr\<close>.
\<close>

theorem freeToPool_behaviour:
  assumes "sBufferPoolTailPtr s \<noteq> nullptr"
  shows
    "let gap = (sBufferPoolTailPtr s + uint (sBufferPoolSkipped s) = sBufferPoolEnd s);
         skipped1 = (if gap then 0 else sBufferPoolSkipped s);
         tail1 = (if gap then sBufferPoolBase s else sBufferPoolTailPtr s)
     in (freeToPool s buf words = Inl Abort \<longleftrightarrow> tail1 \<noteq> buf) \<and>
        (tail1 = buf \<longrightarrow>
           freeToPool s buf words =
             Inr (if tail1 + uint words = sBufferPoolHeadPtr s
                  then s\<lparr>sBufferPoolSkipped := skipped1,
                         sBufferPoolHeadPtr := sBufferPoolBase s,
                         sBufferPoolTailPtr := nullptr\<rparr>
                  else s\<lparr>sBufferPoolSkipped := skipped1,
                         sBufferPoolTailPtr := tail1 + uint words\<rparr>))"
  by (simp add: freeToPool_def consumeGap_def Let_def)

text \<open>
  A wrapped ring of 1024 words whose tail has reached the gap of 24 words: the
  retirement of the buffer at the base consumes the gap and advances the tail.
\<close>

theorem freeToPool_behaviour_witness:
  "sBufferPoolTailPtr (ringAt 1024 4608 5096 24) \<noteq> nullptr \<and>
   freeToPool (ringAt 1024 4608 5096 24) 4096 256 = Inr (ringAt 1024 4608 4352 0) \<and>
   freeToPool (ringAt 1024 4608 5096 24) 4352 256 = Inl Abort"
proof -
  let ?s = "ringAt 1024 4608 5096 24"
  have t: "sBufferPoolTailPtr ?s \<noteq> nullptr"
    by (simp add: ringAt_def nullptr_def)
  from freeToPool_behaviour [OF t, of 4096 256] freeToPool_behaviour [OF t, of 4352 256] t
  show ?thesis
    by (simp add: ringAt_def nullptr_def Let_def)
qed

subsection \<open>Returning the unused end of a lease\<close>

text \<open>
  Claim C6, as the code has it. For every call
  \<^verbatim>\<open>returnToPool(buffer, usedWords, originalWords)\<close> with
  \<open>usedWords \<le> originalWords\<close>: when the two sizes are equal the call returns at
  once, with no check and no change; when \<open>usedWords < originalWords\<close> it aborts
  exactly when \<open>head \<noteq> buffer + originalWords\<close>, and otherwise sets the head to
  \<open>buffer + usedWords\<close>.
\<close>

theorem returnToPool_behaviour:
  assumes "usedSize \<le> originalSize"
  shows
    "(usedSize = originalSize \<longrightarrow> returnToPool s buf usedSize originalSize = Inr s) \<and>
     (usedSize \<noteq> originalSize \<longrightarrow>
        (returnToPool s buf usedSize originalSize = Inl Abort \<longleftrightarrow>
           sBufferPoolHeadPtr s \<noteq> buf + uint originalSize) \<and>
        (sBufferPoolHeadPtr s = buf + uint originalSize \<longrightarrow>
           returnToPool s buf usedSize originalSize =
             Inr (s\<lparr>sBufferPoolHeadPtr := buf + uint usedSize\<rparr>)))"
  using assms by (simp add: returnToPool_def)

theorem returnToPool_behaviour_witness:
  "(100 :: u32) \<le> 256 \<and>
   returnToPool (ringAt 1024 4352 4096 0) 4096 100 256 = Inr (ringAt 1024 4196 4096 0) \<and>
   returnToPool (ringAt 1024 4352 4096 0) 4100 100 256 = Inl Abort \<and>
   returnToPool (ringAt 1024 4352 4096 0) 4100 256 256 = Inr (ringAt 1024 4352 4096 0)"
proof -
  have le: "(100 :: u32) \<le> 256" "(256 :: u32) \<le> 256" by simp_all
  from returnToPool_behaviour [OF le(1), of "ringAt 1024 4352 4096 0" 4096]
    returnToPool_behaviour [OF le(1), of "ringAt 1024 4352 4096 0" 4100]
    returnToPool_behaviour [OF le(2), of "ringAt 1024 4352 4096 0" 4100]
  show ?thesis
    by (simp add: ringAt_def)
qed

text \<open>
  Claim C6 as the specification words it has the call abort whenever
  \<open>head \<noteq> buffer + originalWords\<close>. With \<open>usedWords = originalWords = 256\<close> and
  the head at \<open>base + 512\<close>, the call for the buffer at \<open>base\<close> returns without
  aborting although \<open>head \<noteq> buffer + 256\<close>.
\<close>

theorem returnToPool_equal_sizes_counterexample:
  "(256 :: u32) \<le> 256 \<and>
   sBufferPoolHeadPtr (ringAt 1024 4608 4096 0) \<noteq> 4096 + uint (256 :: u32) \<and>
   returnToPool (ringAt 1024 4608 4096 0) 4096 256 256 \<noteq> Inl Abort \<and>
   returnToPool (ringAt 1024 4608 4096 0) 4096 256 256 = Inr (ringAt 1024 4608 4096 0)"
  by (simp add: returnToPool_def ringAt_def)

subsection \<open>A failed allocation\<close>

text \<open>
  Claim C9. Whenever \<^verbatim>\<open>allocateFromPool\<close> returns \<^verbatim>\<open>nullptr\<close>, on a pool whose
  base and head are not the null pointer, the tail was not the sentinel and the
  ring state (head, tail, skipped, and base and end) is exactly as before the
  call: a failed allocation records no wrap gap and moves no cursor. The
  reference \<^verbatim>\<open>allocatedSize\<close> is not written either.
\<close>

theorem allocateFromPool_nil_unchanged:
  assumes "allocateFromPool s wantedSize a = Inr (s', p, g)" and "p = nullptr"
    and "sBufferPoolBase s \<noteq> nullptr" and "sBufferPoolHeadPtr s \<noteq> nullptr"
  shows "s' = s \<and> g = a \<and> sBufferPoolTailPtr s \<noteq> nullptr"
  using allocateFromPool_cases [OF assms(1)] assms(2-4) by auto

text \<open>
  A ring of 1024 words with the head at \<open>base + 768\<close> and the tail at
  \<open>base + 256\<close>: 512 words fit neither the trailing segment nor the leading one.
\<close>

theorem allocateFromPool_nil_unchanged_witness:
  "allocateFromPool (ringAt 1024 4864 4352 0) 512 7 = Inr (ringAt 1024 4864 4352 0, nullptr, 7) \<and>
   sBufferPoolBase (ringAt 1024 4864 4352 0) \<noteq> nullptr \<and>
   sBufferPoolHeadPtr (ringAt 1024 4864 4352 0) \<noteq> nullptr \<and>
   sBufferPoolTailPtr (ringAt 1024 4864 4352 0) \<noteq> nullptr"
proof -
  let ?s = "ringAt 1024 4864 4352 0"
  have al: "allocateFromPool ?s 512 7 = Inr (?s, nullptr, 7)"
    by (simp add: allocateFromPool_def grant_def Let_def ringAt_def nullptr_def cast_u32_def)
  have nz: "sBufferPoolBase ?s \<noteq> nullptr" "sBufferPoolHeadPtr ?s \<noteq> nullptr"
    by (simp_all add: ringAt_def nullptr_def)
  from allocateFromPool_nil_unchanged [OF al refl nz] al nz
  show ?thesis by simp
qed

subsection \<open>Allocations retired in order\<close>

lemma tiles_le: "tiles a gs b \<Longrightarrow> a \<le> b \<and> (a = b \<longleftrightarrow> gs = [])"
proof (induction gs arbitrary: a)
  case Nil
  then show ?case by simp
next
  case (Cons x gs)
  obtain p g where x: "x = (p, g)" by (cases x)
  from Cons.prems x have "tiles (a + uint g) gs b" "0 < uint g" by simp_all
  with Cons.IH [of "a + uint g"] show ?case by auto
qed

text \<open>
  While the tail stays at the base, the only segment an allocation can be
  granted from is the trailing one: the leading segment has no words.
\<close>

lemma alloc_from_base:
  assumes al: "allocateFromPool s w a = Inr (s', p, g)" and p: "p \<noteq> nullptr"
    and t: "sBufferPoolTailPtr s = sBufferPoolBase s" "sBufferPoolTailPtr s \<noteq> nullptr"
    and h: "sBufferPoolBase s \<le> sBufferPoolHeadPtr s" "sBufferPoolHeadPtr s \<le> sBufferPoolEnd s"
  shows "p = sBufferPoolHeadPtr s \<and> 0 < uint g \<and>
     sBufferPoolHeadPtr s + uint g \<le> sBufferPoolEnd s \<and>
     s' = s\<lparr>sBufferPoolHeadPtr := sBufferPoolHeadPtr s + uint g\<rparr>"
proof -
  let ?b = "sBufferPoolBase s" and ?e = "sBufferPoolEnd s"
  let ?h = "sBufferPoolHeadPtr s" and ?t = "sBufferPoolTailPtr s"
  have z: "cast_u32 0 < max 0x100 w"
    by (simp add: cast_u32_def word_less_def uint_max32)
  from allocateFromPool_cases [OF al] p t h z
  have tr: "\<not> cast_u32 (?e - ?h) < max 0x100 w" "g = min 0x20000 (cast_u32 (?e - ?h))"
    "p = ?h" "s' = s\<lparr>sBufferPoolHeadPtr := ?h + uint g\<rparr>"
    by auto
  from h have "0 \<le> ?e - ?h" by simp
  then have "uint (cast_u32 (?e - ?h)) \<le> ?e - ?h" by (rule uint_cast_u32_le)
  moreover from tr(1) have "256 \<le> uint (cast_u32 (?e - ?h))" by (rule word_not_less_max)
  ultimately have "0 < uint g" "uint g \<le> ?e - ?h"
    by (simp_all add: tr(2) uint_min32)
  with tr show ?thesis by simp
qed

lemma allocateAll_tiles:
  assumes "allocateAll s ws = Some (s', gs)"
    and "sBufferPoolTailPtr s = sBufferPoolBase s" "sBufferPoolTailPtr s \<noteq> nullptr"
    and "sBufferPoolBase s \<le> sBufferPoolHeadPtr s" "sBufferPoolHeadPtr s \<le> sBufferPoolEnd s"
  shows "tiles (sBufferPoolHeadPtr s) gs (sBufferPoolHeadPtr s') \<and>
     sBufferPoolHeadPtr s' \<le> sBufferPoolEnd s \<and>
     s' = s\<lparr>sBufferPoolHeadPtr := sBufferPoolHeadPtr s'\<rparr>"
  using assms
proof (induction ws arbitrary: s gs)
  case Nil
  then show ?case by simp
next
  case (Cons w ws)
  from Cons.prems(1) obtain s1 p g gs' where
    al: "allocateFromPool s w 0 = Inr (s1, p, g)" and p: "p \<noteq> nullptr"
    and rest: "allocateAll s1 ws = Some (s', gs')" and gs: "gs = (p, g) # gs'"
    by (auto split: sum.splits prod.splits if_splits option.splits)
  from alloc_from_base [OF al p Cons.prems(2-5)]
  have s1: "p = sBufferPoolHeadPtr s" "0 < uint g"
    "sBufferPoolHeadPtr s + uint g \<le> sBufferPoolEnd s"
    "s1 = s\<lparr>sBufferPoolHeadPtr := sBufferPoolHeadPtr s + uint g\<rparr>"
    by simp_all
  have "tiles (sBufferPoolHeadPtr s1) gs' (sBufferPoolHeadPtr s') \<and>
     sBufferPoolHeadPtr s' \<le> sBufferPoolEnd s1 \<and>
     s' = s1\<lparr>sBufferPoolHeadPtr := sBufferPoolHeadPtr s'\<rparr>"
    using Cons.prems(2-5) s1(2,3)
    by (intro Cons.IH [OF rest]) (simp_all add: s1(4))
  with s1 gs show ?case by simp
qed

lemma freeAll_tiles:
  assumes "tiles (sBufferPoolTailPtr s) gs (sBufferPoolHeadPtr s)" "gs \<noteq> []"
    and "sBufferPoolSkipped s = 0" "sBufferPoolHeadPtr s \<le> sBufferPoolEnd s"
  shows "\<exists>s''. freeAll s gs = Inr s'' \<and> isEmpty s'' \<and>
     sBufferPoolBase s'' = sBufferPoolBase s \<and> sBufferPoolEnd s'' = sBufferPoolEnd s"
  using assms
proof (induction gs arbitrary: s)
  case Nil
  then show ?case by simp
next
  case (Cons x gs)
  obtain p g where x: "x = (p, g)" by (cases x)
  let ?t = "sBufferPoolTailPtr s" and ?h = "sBufferPoolHeadPtr s"
  from Cons.prems(1) x have pg: "p = ?t" "0 < uint g" and tl: "tiles (?t + uint g) gs ?h"
    by simp_all
  from tiles_le [OF tl] have le: "?t + uint g \<le> ?h" and eq: "?t + uint g = ?h \<longleftrightarrow> gs = []"
    by simp_all
  from le pg(2) Cons.prems(4) have ne: "?t \<noteq> sBufferPoolEnd s" by simp
  with Cons.prems(3) have cg: "consumeGap s = s" by (simp add: consumeGap_def)
  show ?case
  proof (cases "gs = []")
    case True
    with eq have "?t + uint g = ?h" by simp
    then show ?thesis
      using Cons.prems(3) True x pg(1) cg
      by (simp add: freeToPool_def Let_def isEmpty_def)
  next
    case False
    with eq have neq: "?t + uint g \<noteq> ?h" by simp
    let ?s1 = "s\<lparr>sBufferPoolTailPtr := ?t + uint g\<rparr>"
    have fr: "freeToPool s p g = Inr ?s1"
      using neq pg(1) cg by (simp add: freeToPool_def Let_def)
    have "\<exists>s''. freeAll ?s1 gs = Inr s'' \<and> isEmpty s'' \<and>
       sBufferPoolBase s'' = sBufferPoolBase ?s1 \<and> sBufferPoolEnd s'' = sBufferPoolEnd ?s1"
      using tl False Cons.prems(3,4) by (intro Cons.IH) simp_all
    with fr x show ?thesis by simp
  qed
qed

text \<open>
  Claim C5. For every sequence of successful \<^verbatim>\<open>allocateFromPool\<close> calls that starts
  from the empty ring (of a pool whose size fits \<^verbatim>\<open>uint32_t\<close>, as
  \<^verbatim>\<open>initCommandBufferPool\<close> makes it), followed by \<^verbatim>\<open>freeToPool\<close> calls on the same
  buffers with their granted sizes in the same order, no retirement aborts and
  the ring is back in the empty state \<open>tail = nullptr\<close>, \<open>head = base\<close>,
  \<open>skipped = 0\<close> after the last one.
\<close>

theorem fifo_retirement_empties:
  assumes e: "isEmpty s" and sz: "sBufferPoolEnd s - sBufferPoolBase s < 2 ^ 32"
    and al: "allocateAll s ws = Some (s', gs)"
  shows "\<exists>s''. freeAll s' gs = Inr s'' \<and> isEmpty s'' \<and>
     sBufferPoolBase s'' = sBufferPoolBase s \<and> sBufferPoolEnd s'' = sBufferPoolEnd s"
proof (cases ws)
  case Nil
  with al e show ?thesis by simp
next
  case (Cons w ws')
  let ?b = "sBufferPoolBase s" and ?e = "sBufferPoolEnd s"
  from al Cons obtain s1 p g gs' where
    a1: "allocateFromPool s w 0 = Inr (s1, p, g)" and p: "p \<noteq> nullptr"
    and rest: "allocateAll s1 ws' = Some (s', gs')" and gs: "gs = (p, g) # gs'"
    by (auto split: sum.splits prod.splits if_splits option.splits)
  from e have t0: "sBufferPoolTailPtr s = nullptr" and k0: "sBufferPoolSkipped s = 0"
    by (simp_all add: isEmpty_def)
  from allocateFromPool_cases [OF a1] p t0
  have first: "uint (max 0x100 w) \<le> ?e - ?b" "g = min 0x20000 (cast_u32 (?e - ?b))"
    "p = ?b" "s1 = s\<lparr>sBufferPoolTailPtr := ?b, sBufferPoolHeadPtr := ?b + uint g\<rparr>"
    by auto
  from first(1) have big: "256 \<le> ?e - ?b" by (simp add: uint_max32)
  with sz have "uint (cast_u32 (?e - ?b)) = ?e - ?b" by (simp add: uint_cast_u32)
  with big have g: "0 < uint g" "?b + uint g \<le> ?e"
    by (simp_all add: first(2) uint_min32)
  have "tiles (sBufferPoolHeadPtr s1) gs' (sBufferPoolHeadPtr s') \<and>
     sBufferPoolHeadPtr s' \<le> sBufferPoolEnd s1 \<and>
     s' = s1\<lparr>sBufferPoolHeadPtr := sBufferPoolHeadPtr s'\<rparr>"
    using p g first(3) by (intro allocateAll_tiles [OF rest]) (simp_all add: first(4))
  then have tl: "tiles (?b + uint g) gs' (sBufferPoolHeadPtr s')"
    and le: "sBufferPoolHeadPtr s' \<le> ?e"
    and s': "s' = s\<lparr>sBufferPoolTailPtr := ?b, sBufferPoolHeadPtr := sBufferPoolHeadPtr s'\<rparr>"
    by (simp_all add: first(4))
  have t': "sBufferPoolTailPtr s' = ?b" "sBufferPoolSkipped s' = 0"
    "sBufferPoolEnd s' = ?e" "sBufferPoolBase s' = ?b"
    using k0 by (subst s', simp)+
  have "\<exists>s''. freeAll s' gs = Inr s'' \<and> isEmpty s'' \<and>
     sBufferPoolBase s'' = sBufferPoolBase s' \<and> sBufferPoolEnd s'' = sBufferPoolEnd s'"
    using tl g(1) first(3) le t' gs by (intro freeAll_tiles) simp_all
  with t' show ?thesis by simp
qed

text \<open>
  A pool of \<open>0x40000\<close> words: two allocations of \<open>0x20000\<close> words fill it, and
  their retirement in order empties it.
\<close>

theorem fifo_retirement_empties_witness:
  "isEmpty (ringAt 0x40000 4096 nullptr 0) \<and>
   sBufferPoolEnd (ringAt 0x40000 4096 nullptr 0) - sBufferPoolBase (ringAt 0x40000 4096 nullptr 0)
     < 2 ^ 32 \<and>
   allocateAll (ringAt 0x40000 4096 nullptr 0) [0, 0x20000] =
     Some (ringAt 0x40000 (4096 + 0x40000) 4096 0, [(4096, 0x20000), (4096 + 0x20000, 0x20000)]) \<and>
   freeAll (ringAt 0x40000 (4096 + 0x40000) 4096 0) [(4096, 0x20000), (4096 + 0x20000, 0x20000)] =
     Inr (ringAt 0x40000 4096 nullptr 0)"
proof -
  let ?s = "ringAt 0x40000 4096 nullptr 0"
  have e: "isEmpty ?s" by (simp add: isEmpty_def ringAt_def)
  have sz: "sBufferPoolEnd ?s - sBufferPoolBase ?s < 2 ^ 32" by (simp add: ringAt_def)
  have al: "allocateAll ?s [0, 0x20000] =
     Some (ringAt 0x40000 (4096 + 0x40000) 4096 0, [(4096, 0x20000), (4096 + 0x20000, 0x20000)])"
    by (simp add: allocateFromPool_def grant_def Let_def ringAt_def nullptr_def cast_u32_def)
  have fr: "freeAll (ringAt 0x40000 (4096 + 0x40000) 4096 0)
     [(4096, 0x20000), (4096 + 0x20000, 0x20000)] = Inr ?s"
    by (simp add: freeToPool_def consumeGap_def Let_def ringAt_def nullptr_def)
  from fifo_retirement_empties [OF e sz al] e sz al fr
  show ?thesis by simp
qed

section \<open>Properties of padding\<close>

subsection \<open>What the loop writes\<close>

lemma unat_succ: "(x::u32) < y \<Longrightarrow> unat (x + 1) = Suc (unat x)"
proof -
  assume "x < y"
  then have "unat x < unat y" by (simp add: word_less_nat_alt)
  moreover have "unat y < 2 ^ 32" using unsigned_less [of y] by simp
  ultimately have "unat x + unat (1 :: u32) < 2 ^ LENGTH(32)" by simp
  then have "unat (x + 1) = unat x + unat (1 :: u32)" by (simp only: unat_add_lem)
  then show ?thesis by simp
qed

lemma filled_empty: "hi \<le> lo \<Longrightarrow> filled m p lo hi = m"
  by (rule ext) (auto simp: filled_def)

lemma filled_step:
  assumes "lo < hi"
  shows "filled (m(p + int lo := byte_swap 0xBEEF2929)) p (Suc lo) hi = filled m p lo hi"
  using assms by (auto simp: filled_def fun_eq_iff)

lemma padLoop_eq:
  "curSize b \<le> alignedSize \<Longrightarrow>
   padLoop b m alignedSize =
     (b\<lparr>curSize := alignedSize\<rparr>, filled m (buffer b) (unat (curSize b)) (unat alignedSize))"
proof (induction b m alignedSize rule: padLoop.induct)
  case (1 b m alignedSize)
  show ?case
  proof (cases "curSize b < alignedSize")
    case True
    let ?b = "b\<lparr>curSize := curSize b + 1\<rparr>"
    let ?m = "m(buffer b + uint (curSize b) := byte_swap 0xBEEF2929)"
    from True have suc: "unat (curSize b + 1) = Suc (unat (curSize b))" by (rule unat_succ)
    from True have lt: "unat (curSize b) < unat alignedSize" by (simp add: word_less_nat_alt)
    with suc have "curSize ?b \<le> alignedSize" by (simp add: word_le_nat_alt)
    then have ih: "padLoop ?b ?m alignedSize =
       (?b\<lparr>curSize := alignedSize\<rparr>, filled ?m (buffer ?b) (unat (curSize ?b)) (unat alignedSize))"
      by (rule "1.IH" [OF True])
    have fs: "filled ?m (buffer b) (Suc (unat (curSize b))) (unat alignedSize) =
       filled m (buffer b) (unat (curSize b)) (unat alignedSize)"
      unfolding uint_nat by (rule filled_step [OF lt])
    have "padLoop b m alignedSize = padLoop ?b ?m alignedSize"
      using True by (simp add: padLoop.simps [of b])
    also note ih
    also have "(?b\<lparr>curSize := alignedSize\<rparr>,
         filled ?m (buffer ?b) (unat (curSize ?b)) (unat alignedSize)) =
       (b\<lparr>curSize := alignedSize\<rparr>, filled m (buffer b) (unat (curSize b)) (unat alignedSize))"
      using fs by (simp add: suc)
    finally show ?thesis .
  next
    case False
    with "1.prems" have eq: "curSize b = alignedSize" by simp
    then have "padLoop b m alignedSize = (b, m)"
      by (simp add: padLoop.simps [of b])
    with eq show ?thesis by (simp add: filled_empty)
  qed
qed

lemma roundUp8_props: "8 dvd roundUp8 n \<and> n \<le> roundUp8 n \<and> roundUp8 n < n + 8"
  by (simp add: roundUp8_def) presburger

lemma unat_of_nat32: "n < 2 ^ 32 \<Longrightarrow> unat (word_of_nat n :: u32) = n"
  by (simp add: unat_of_nat)

lemma align_up_8:
  assumes "roundUp8 (unat v) < 2 ^ 32"
  shows "unat (align_up v (32 div 4)) = roundUp8 (unat v)"
proof -
  have "align_up v (32 div 4) = word_of_nat (roundUp8 (unat v))"
    by (simp add: align_up_def roundUp8_def)
  then show ?thesis
    using unat_of_nat32 [OF assms] by (simp only:)
qed

text \<open>The filler word in device byte order.\<close>

lemma byte_swap_filler: "byte_swap 0xBEEF2929 = 0x2929EFBE"
  by (simp add: byte_swap_def)

text \<open>
  Two runs: a descriptor with 4 of 8 words used is padded to 8 words, and one
  with 12 words used and 8 reserved aborts.
\<close>

lemma pad_example:
  "padCommandBuffer (bufferAt 4 8) zeroMemory =
     Inr (bufferAt 8 8,
          zeroMemory(8196 := 0x2929EFBE, 8197 := 0x2929EFBE, 8198 := 0x2929EFBE,
                     8199 := 0x2929EFBE))"
  by (simp add: padCommandBuffer_def bufferAt_def align_up_def byte_swap_def padLoop.simps)

lemma pad_abort_example:
  "padCommandBuffer (bufferAt 12 8) zeroMemory = Inl Abort"
  by (simp add: padCommandBuffer_def bufferAt_def align_up_def)

subsection \<open>Padding to the granule\<close>

text \<open>
  Claim C2, as the code has it. For every buffer descriptor whose \<open>curSize\<close>
  rounded up to the next multiple of 8 is at most \<open>maxSize\<close>,
  \<^verbatim>\<open>padCommandBuffer\<close> does not abort; it stores the filler word
  \<^verbatim>\<open>byte_swap(0xBEEF2929)\<close> at \<open>buffer[curSize]\<close>, \<open>buffer[curSize + 1]\<close>, \<dots> up
  to the new \<open>curSize\<close>, changes nothing else, and leaves \<open>curSize\<close> equal to the
  old \<open>curSize\<close> rounded up to the next multiple of 8 words (32 bytes).
\<close>

theorem padCommandBuffer_pads_to_8:
  assumes "roundUp8 (unat (curSize b)) \<le> unat (maxSize b)"
  shows "\<exists>c. padCommandBuffer b m =
           Inr (b\<lparr>curSize := c\<rparr>, filled m (buffer b) (unat (curSize b)) (unat c)) \<and>
         8 dvd unat c \<and> unat (curSize b) \<le> unat c \<and> unat c < unat (curSize b) + 8"
proof -
  let ?A = "align_up (curSize b) (32 div 4)"
  have "unat (maxSize b) < 2 ^ 32" using unsigned_less [of "maxSize b"] by simp
  with assms have "roundUp8 (unat (curSize b)) < 2 ^ 32" by simp
  then have A: "unat ?A = roundUp8 (unat (curSize b))" by (rule align_up_8)
  with assms have le: "?A \<le> maxSize b" by (simp add: word_le_nat_alt)
  from A roundUp8_props [of "unat (curSize b)"]
  have props: "8 dvd unat ?A" "unat (curSize b) \<le> unat ?A" "unat ?A < unat (curSize b) + 8"
    by simp_all
  then have "curSize b \<le> ?A" by (simp add: word_le_nat_alt)
  then have "padLoop b m ?A = (b\<lparr>curSize := ?A\<rparr>, filled m (buffer b) (unat (curSize b)) (unat ?A))"
    by (rule padLoop_eq)
  with le have "padCommandBuffer b m =
      Inr (b\<lparr>curSize := ?A\<rparr>, filled m (buffer b) (unat (curSize b)) (unat ?A))"
    by (simp add: padCommandBuffer_def Let_def)
  with props show ?thesis by blast
qed

theorem padCommandBuffer_pads_to_8_witness:
  "roundUp8 (unat (curSize (bufferAt 4 8))) \<le> unat (maxSize (bufferAt 4 8)) \<and>
   padCommandBuffer (bufferAt 4 8) zeroMemory =
     Inr (bufferAt 8 8, filled zeroMemory 8192 4 8)"
proof -
  have h: "roundUp8 (unat (curSize (bufferAt 4 8))) \<le> unat (maxSize (bufferAt 4 8))"
    by (simp add: roundUp8_def bufferAt_def)
  from padCommandBuffer_pads_to_8 [OF h, of zeroMemory] obtain c where
    r: "padCommandBuffer (bufferAt 4 8) zeroMemory =
          Inr ((bufferAt 4 8)\<lparr>curSize := c\<rparr>,
               filled zeroMemory (buffer (bufferAt 4 8)) (unat (curSize (bufferAt 4 8))) (unat c))"
    and c: "8 dvd unat c" "unat (curSize (bufferAt 4 8)) \<le> unat c"
      "unat c < unat (curSize (bufferAt 4 8)) + 8"
    by blast
  from c have "unat c = 8" by (simp add: bufferAt_def) presburger
  moreover have "c = word_of_nat (unat c)" by simp
  ultimately have "c = 8" by simp
  with r h show ?thesis by (simp add: bufferAt_def)
qed

text \<open>
  Claim C2 as the specification words it pads to a multiple of 4 words. A
  descriptor with \<open>curSize = 4\<close> and \<open>maxSize = 8\<close> is at a multiple of 4, and
  the code still stores four filler words and leaves \<open>curSize = 8\<close>.
\<close>

theorem padCommandBuffer_pads_to_4_counterexample:
  "curSize (bufferAt 4 8) \<le> maxSize (bufferAt 4 8) \<and>
   4 dvd unat (curSize (bufferAt 4 8)) \<and>
   padCommandBuffer (bufferAt 4 8) zeroMemory =
     Inr (bufferAt 8 8,
          zeroMemory(8196 := 0x2929EFBE, 8197 := 0x2929EFBE, 8198 := 0x2929EFBE,
                     8199 := 0x2929EFBE)) \<and>
   curSize (bufferAt 8 8) \<noteq> curSize (bufferAt 4 8)"
  using pad_example by (simp add: bufferAt_def)

subsection \<open>Padding stays inside the reserved region\<close>

text \<open>
  Claim C10. \<^verbatim>\<open>align_up\<close> is not among the sources; rounding up determines its
  value where the rounded value fits \<^verbatim>\<open>uint32_t\<close>, that is for
  \<open>curSize + 7 < 2 ^ 32\<close>, and the claim is stated for these descriptors. There
  \<^verbatim>\<open>align_up(curSize, 32 / 4)\<close> is \<open>curSize\<close> rounded up to the next multiple of 8,
  and \<^verbatim>\<open>padCommandBuffer\<close> aborts exactly when it exceeds \<open>maxSize\<close>. When it does
  not abort, the words it stores are the filler at \<open>buffer[curSize]\<close>, \<dots>,
  \<open>buffer[n - 1]\<close> where \<open>n\<close> is the rounded size and \<open>n \<le> maxSize\<close>, so every
  index written is strictly below \<open>maxSize\<close>, and the resulting \<open>curSize\<close>, which
  is \<open>n\<close>, is at most \<open>maxSize\<close>.
\<close>

theorem padCommandBuffer_within_maxSize:
  assumes "unat (curSize b) + 7 < 2 ^ 32"
  shows
    "unat (align_up (curSize b) (32 div 4)) = roundUp8 (unat (curSize b)) \<and>
     (padCommandBuffer b m = Inl Abort \<longleftrightarrow>
        \<not> align_up (curSize b) (32 div 4) \<le> maxSize b) \<and>
     (padCommandBuffer b m = Inr (b', m') \<longrightarrow>
        b' = b\<lparr>curSize := align_up (curSize b) (32 div 4)\<rparr> \<and>
        m' = filled m (buffer b) (unat (curSize b)) (unat (align_up (curSize b) (32 div 4))) \<and>
        unat (align_up (curSize b) (32 div 4)) \<le> unat (maxSize b) \<and>
        curSize b' \<le> maxSize b)"
proof (intro conjI impI)
  let ?A = "align_up (curSize b) (32 div 4)"
  from roundUp8_props [of "unat (curSize b)"] assms
  have "roundUp8 (unat (curSize b)) < 2 ^ 32" by simp
  then show A: "unat ?A = roundUp8 (unat (curSize b))" by (rule align_up_8)
  with roundUp8_props [of "unat (curSize b)"] have up: "curSize b \<le> ?A"
    by (simp add: word_le_nat_alt)
  show "padCommandBuffer b m = Inl Abort \<longleftrightarrow> \<not> ?A \<le> maxSize b"
    by (simp add: padCommandBuffer_def Let_def)
  assume r: "padCommandBuffer b m = Inr (b', m')"
  then have le: "?A \<le> maxSize b" and pl: "padLoop b m ?A = (b', m')"
    by (simp_all add: padCommandBuffer_def Let_def split: if_splits)
  from padLoop_eq [OF up, of m] pl
  show b': "b' = b\<lparr>curSize := ?A\<rparr>"
    and "m' = filled m (buffer b) (unat (curSize b)) (unat ?A)"
    by simp_all
  from le show "unat ?A \<le> unat (maxSize b)" by (simp add: word_le_nat_alt)
  from b' le show "curSize b' \<le> maxSize b" by simp
qed

theorem padCommandBuffer_within_maxSize_witness:
  "unat (curSize (bufferAt 4 8)) + 7 < 2 ^ 32 \<and>
   padCommandBuffer (bufferAt 4 8) zeroMemory =
     Inr (bufferAt 8 8,
          zeroMemory(8196 := 0x2929EFBE, 8197 := 0x2929EFBE, 8198 := 0x2929EFBE,
                     8199 := 0x2929EFBE)) \<and>
   curSize (bufferAt 8 8) \<le> maxSize (bufferAt 4 8) \<and>
   unat (curSize (bufferAt 12 8)) + 7 < 2 ^ 32 \<and>
   padCommandBuffer (bufferAt 12 8) zeroMemory = Inl Abort \<and>
   \<not> align_up (curSize (bufferAt 12 8)) (32 div 4) \<le> maxSize (bufferAt 12 8)"
proof -
  have h: "unat (curSize (bufferAt 4 8)) + 7 < 2 ^ 32"
    "unat (curSize (bufferAt 12 8)) + 7 < 2 ^ 32"
    by (simp_all add: bufferAt_def)
  from padCommandBuffer_within_maxSize [OF h(1), of zeroMemory "bufferAt 8 8"
      "zeroMemory(8196 := 0x2929EFBE, 8197 := 0x2929EFBE, 8198 := 0x2929EFBE,
                  8199 := 0x2929EFBE)"]
    padCommandBuffer_within_maxSize [OF h(2), of zeroMemory]
    pad_example pad_abort_example h
  show ?thesis by simp
qed

section \<open>Properties of the lease manager\<close>

subsection \<open>The host memory is not written\<close>

lemma GX2WaitTimeStamp_memory:
  "GX2WaitTimeStamp s = Inr s' \<Longrightarrow> hostMemory s' = hostMemory s"
  by (auto simp: GX2WaitTimeStamp_def freeCommandBuffer_def freeBufferObj_def Let_def
        split: list.splits if_splits sum.splits)

lemma allocateLoop_memory:
  "allocateLoop s sz a = Inr (s', p, g) \<Longrightarrow> hostMemory s' = hostMemory s"
proof (induction s sz a rule: allocateLoop.induct)
  case (1 s sz a)
  from "1.prems" obtain r ab as' where
    al: "allocateFromPool (ring s) sz a = Inr (r, ab, as')"
    by (subst (asm) allocateLoop.simps) (auto split: sum.splits)
  show ?case
  proof (cases "ab = nullptr")
    case False
    with "1.prems" al show ?thesis
      by (subst (asm) allocateLoop.simps) auto
  next
    case True
    with "1.prems" al obtain s'' where
      w: "GX2WaitTimeStamp (s\<lparr>ring := r\<rparr>) = Inr s''"
      and rest: "allocateLoop s'' sz as' = Inr (s', p, g)"
      by (subst (asm) allocateLoop.simps) (auto split: sum.splits)
    from True have "\<not> ab \<noteq> nullptr" by simp
    from "1.IH" [OF al refl refl this w rest] have "hostMemory s' = hostMemory s''" .
    with GX2WaitTimeStamp_memory [OF w] show ?thesis by simp
  qed
qed

lemma allocateCommandBuffer_memory:
  "allocateCommandBuffer s core sz = Inr (s', cb) \<Longrightarrow> hostMemory s' = hostMemory s"
  by (auto simp: allocateCommandBuffer_def allocateBufferObj_def Let_def
        split: if_splits sum.splits prod.splits dest: allocateLoop_memory)

subsection \<open>A call from another core\<close>

text \<open>
  Claim C8. When \<^verbatim>\<open>allocateCommandBuffer\<close> is called on a core other than the
  main graphics core while no lease is outstanding, it logs a warning and
  returns \<^verbatim>\<open>nullptr\<close>: it does not abort, and the state after the call is the
  state before it with the warning added to the log, so head, tail, skipped
  and the lease flag are unchanged.
\<close>

theorem allocateCommandBuffer_non_main_core:
  assumes "mainCoreId s \<noteq> core" and "\<not> sBufferPoolLeased s"
  shows "allocateCommandBuffer s core sz =
     Inr (s\<lparr>gLog := gLog s @ [''Tried to allocate command buffer on non-main graphics core'']\<rparr>, 0)"
  using assms by (simp add: allocateCommandBuffer_def)

theorem allocateCommandBuffer_non_main_core_witness:
  "mainCoreId (exampleState (ringAt 1024 4608 4352 0) False) \<noteq> 1 \<and>
   \<not> sBufferPoolLeased (exampleState (ringAt 1024 4608 4352 0) False) \<and>
   allocateCommandBuffer (exampleState (ringAt 1024 4608 4352 0) False) 1 256 =
     Inr ((exampleState (ringAt 1024 4608 4352 0) False)
            \<lparr>gLog := [''Tried to allocate command buffer on non-main graphics core'']\<rparr>, 0)"
proof -
  let ?s = "exampleState (ringAt 1024 4608 4352 0) False"
  have h: "mainCoreId ?s \<noteq> 1" "\<not> sBufferPoolLeased ?s"
    by (simp_all add: exampleState_def)
  from allocateCommandBuffer_non_main_core [OF h, of 256] h
  show ?thesis by (simp add: exampleState_def)
qed

subsection \<open>Flushing a pool-backed buffer\<close>

text \<open>
  All of \<^verbatim>\<open>flushActiveCommandBuffer\<close> for a pool-backed active buffer \<open>cb\<close>: it
  aborts when no lease is outstanding or when \<^verbatim>\<open>returnToPool\<close> aborts; otherwise
  the lease flag is cleared, the ring is as \<^verbatim>\<open>returnToPool\<close> leaves it, \<open>maxSize\<close>
  of the descriptor becomes its \<open>curSize\<close>, the slot of the core is cleared, and
  the descriptor is appended to the GPU queue, or pushed on the free list of
  descriptors when \<open>curSize = 0\<close>. Nothing else changes.
\<close>

lemma flushActiveCommandBuffer_pool_backed:
  assumes "sActiveBuffer s core = cb" and "cb \<noteq> 0" and "\<not> displayList (objects s cb)"
  shows "flushActiveCommandBuffer s core =
     (if \<not> sBufferPoolLeased s then Inl Abort
      else
        (case returnToPool (ring s) (buffer (objects s cb)) (curSize (objects s cb))
                (maxSize (objects s cb)) of
           Inl e \<Rightarrow> Inl e
         | Inr r \<Rightarrow>
             Inr (s\<lparr>sBufferItemPool :=
                        (if curSize (objects s cb) = 0 then cb else sBufferItemPool s),
                      sBufferPoolLeased := False,
                      ring := r,
                      sActiveBuffer := (sActiveBuffer s)(core := 0),
                      objects := (objects s)
                        (cb := (objects s cb)
                           \<lparr>maxSize := curSize (objects s cb),
                            nextPtr := (if curSize (objects s cb) = 0 then sBufferItemPool s
                                        else nextPtr (objects s cb))\<rparr>),
                      gpuQueue := (if curSize (objects s cb) = 0 then gpuQueue s
                                   else gpuQueue s @ [cb])\<rparr>)))"
  using assms
  by (simp add: flushActiveCommandBuffer_def freeBufferObj_def queueCommandBuffer_def Let_def
        split: sum.splits)

lemma flushActiveCommandBuffer_memory:
  "flushActiveCommandBuffer s core = Inr s1 \<Longrightarrow> hostMemory s1 = hostMemory s"
  by (auto simp: flushActiveCommandBuffer_def freeBufferObj_def queueCommandBuffer_def Let_def
        split: if_splits sum.splits)

lemma release_eval:
  "flushActiveCommandBuffer emptyLeaseExample 0 = Inr releasedExample"
  by (simp add: flushActiveCommandBuffer_def returnToPool_def freeBufferObj_def
        emptyLeaseExample_def releasedExample_def flushExample_def exampleState_def
        ringAt_def leaseAt_def Let_def fun_upd_idem)

lemma flush_eval1:
  "flushActiveCommandBuffer flushExample 0 = Inr flushedActive"
  by (simp add: flushActiveCommandBuffer_def returnToPool_def queueCommandBuffer_def
        flushExample_def flushedActive_def exampleState_def ringAt_def leaseAt_def Let_def
        fun_upd_idem)

lemma flush_eval2:
  "flushCommandBuffer flushExample 0 256 = Inr (flushed, 8)"
  by (simp add: flushCommandBuffer_def flushActiveCommandBuffer_def allocateCommandBuffer_def
        allocateLoop.simps allocateFromPool_def grant_def returnToPool_def
        allocateBufferObj_def queueCommandBuffer_def freeBufferObj_def
        flushExample_def flushed_def exampleState_def ringAt_def leaseAt_def newBuffer_def
        Let_def nullptr_def cast_u32_def)

text \<open>
  Claim C3, as the code has it. When \<^verbatim>\<open>flushCommandBuffer(neededWords)\<close> is called
  with a pool-backed active buffer, it does not pad. It calls
  \<^verbatim>\<open>flushActiveCommandBuffer\<close> and then installs the result of
  \<^verbatim>\<open>allocateCommandBuffer(neededWords)\<close> as the new active buffer.
  \<^verbatim>\<open>flushActiveCommandBuffer\<close> aborts when no lease is outstanding or when
  \<^verbatim>\<open>returnToPool\<close> aborts; otherwise it clears the lease flag, returns the unused
  end of the lease to the ring, leaves host memory and the buffer's \<open>curSize\<close> as
  they are, sets \<open>maxSize\<close> to \<open>curSize\<close>, clears the slot of the core, and
  either appends the descriptor to the GPU queue or, when \<open>curSize = 0\<close>,
  releases it: it becomes the head of the free list of descriptors, linked to
  the former head, and is not queued. The host memory after the whole call is
  the host memory before it.
\<close>

theorem flushCommandBuffer_pool_backed:
  assumes "sActiveBuffer s core = cb" and "cb \<noteq> 0" and "\<not> displayList (objects s cb)"
  shows
    "flushCommandBuffer s core neededSize =
       (case flushActiveCommandBuffer s core of
          Inl e \<Rightarrow> Inl e
        | Inr s1 \<Rightarrow>
            (case allocateCommandBuffer s1 core neededSize of
               Inl e \<Rightarrow> Inl e
             | Inr (s2, cb') \<Rightarrow>
                 Inr (s2\<lparr>sActiveBuffer := (sActiveBuffer s2)(core := cb')\<rparr>, cb'))) \<and>
     flushActiveCommandBuffer s core =
       (if \<not> sBufferPoolLeased s then Inl Abort
        else
          (case returnToPool (ring s) (buffer (objects s cb)) (curSize (objects s cb))
                  (maxSize (objects s cb)) of
             Inl e \<Rightarrow> Inl e
           | Inr r \<Rightarrow>
               Inr (s\<lparr>sBufferItemPool :=
                          (if curSize (objects s cb) = 0 then cb else sBufferItemPool s),
                        sBufferPoolLeased := False,
                        ring := r,
                        sActiveBuffer := (sActiveBuffer s)(core := 0),
                        objects := (objects s)
                          (cb := (objects s cb)
                             \<lparr>maxSize := curSize (objects s cb),
                              nextPtr := (if curSize (objects s cb) = 0 then sBufferItemPool s
                                          else nextPtr (objects s cb))\<rparr>),
                        gpuQueue := (if curSize (objects s cb) = 0 then gpuQueue s
                                     else gpuQueue s @ [cb])\<rparr>))) \<and>
     (flushCommandBuffer s core neededSize = Inr (s', cb') \<longrightarrow>
        hostMemory s' = hostMemory s \<and> sActiveBuffer s' core = cb')"
proof (intro conjI impI)
  show "flushCommandBuffer s core neededSize =
       (case flushActiveCommandBuffer s core of
          Inl e \<Rightarrow> Inl e
        | Inr s1 \<Rightarrow>
            (case allocateCommandBuffer s1 core neededSize of
               Inl e \<Rightarrow> Inl e
             | Inr (s2, cb') \<Rightarrow>
                 Inr (s2\<lparr>sActiveBuffer := (sActiveBuffer s2)(core := cb')\<rparr>, cb')))"
    using assms by (simp add: flushCommandBuffer_def Let_def)
next
  show "flushActiveCommandBuffer s core =
       (if \<not> sBufferPoolLeased s then Inl Abort
        else
          (case returnToPool (ring s) (buffer (objects s cb)) (curSize (objects s cb))
                  (maxSize (objects s cb)) of
             Inl e \<Rightarrow> Inl e
           | Inr r \<Rightarrow>
               Inr (s\<lparr>sBufferItemPool :=
                          (if curSize (objects s cb) = 0 then cb else sBufferItemPool s),
                        sBufferPoolLeased := False,
                        ring := r,
                        sActiveBuffer := (sActiveBuffer s)(core := 0),
                        objects := (objects s)
                          (cb := (objects s cb)
                             \<lparr>maxSize := curSize (objects s cb),
                              nextPtr := (if curSize (objects s cb) = 0 then sBufferItemPool s
                                          else nextPtr (objects s cb))\<rparr>),
                        gpuQueue := (if curSize (objects s cb) = 0 then gpuQueue s
                                     else gpuQueue s @ [cb])\<rparr>)))"
    using assms by (rule flushActiveCommandBuffer_pool_backed)
next
  assume r: "flushCommandBuffer s core neededSize = Inr (s', cb')"
  with assms obtain s1 s2 where
    f: "flushActiveCommandBuffer s core = Inr s1"
    and a: "allocateCommandBuffer s1 core neededSize = Inr (s2, cb')"
    and s': "s' = s2\<lparr>sActiveBuffer := (sActiveBuffer s2)(core := cb')\<rparr>"
    by (auto simp: flushCommandBuffer_def Let_def split: sum.splits)
  from flushActiveCommandBuffer_memory [OF f] allocateCommandBuffer_memory [OF a] s'
  show "hostMemory s' = hostMemory s" "sActiveBuffer s' core = cb'"
    by simp_all
qed

text \<open>
  The active buffer of \<open>flushExample\<close> holds 101 words and is queued; the one
  of \<open>emptyLeaseExample\<close> holds none and is released to the free list.
\<close>

theorem flushCommandBuffer_pool_backed_witness:
  "sActiveBuffer flushExample 0 = 7 \<and> (7 :: bufptr) \<noteq> 0 \<and>
   \<not> displayList (objects flushExample 7) \<and>
   flushActiveCommandBuffer flushExample 0 = Inr flushedActive \<and>
   gpuQueue flushedActive = [7] \<and> sBufferItemPool flushedActive = 0 \<and>
   flushCommandBuffer flushExample 0 256 = Inr (flushed, 8) \<and>
   hostMemory flushed = hostMemory flushExample \<and> sActiveBuffer flushed 0 = 8 \<and>
   sActiveBuffer emptyLeaseExample 0 = 7 \<and>
   \<not> displayList (objects emptyLeaseExample 7) \<and>
   flushActiveCommandBuffer emptyLeaseExample 0 = Inr releasedExample \<and>
   gpuQueue releasedExample = [] \<and> sBufferItemPool releasedExample = 7"
proof -
  have h: "sActiveBuffer flushExample 0 = 7" "(7 :: bufptr) \<noteq> 0"
    "\<not> displayList (objects flushExample 7)"
    by (simp_all add: flushExample_def leaseAt_def)
  have h': "sActiveBuffer emptyLeaseExample 0 = 7"
    "\<not> displayList (objects emptyLeaseExample 7)"
    by (simp_all add: emptyLeaseExample_def flushExample_def leaseAt_def)
  have q: "gpuQueue flushedActive = [7]" "sBufferItemPool flushedActive = 0"
    "gpuQueue releasedExample = []" "sBufferItemPool releasedExample = 7"
    by (simp_all add: flushedActive_def releasedExample_def flushExample_def exampleState_def)
  from flushCommandBuffer_pool_backed [OF h, of 256 flushed 8]
    flushCommandBuffer_pool_backed [OF h'(1) h(2) h'(2), of 256]
    flush_eval1 flush_eval2 release_eval h h' q
  show ?thesis by simp
qed

text \<open>
  Claim C3 as the specification words it has the buffer padded with the filler
  word before it is queued. The active buffer holds 101 words; after the flush
  the queued descriptor still has \<open>curSize = 101\<close>, the word after its last one
  is not the filler, and the next lease starts right there, at \<open>base + 101\<close>.
\<close>

theorem flushCommandBuffer_no_padding_counterexample:
  "sActiveBuffer flushExample 0 = 7 \<and> \<not> displayList (objects flushExample 7) \<and>
   curSize (objects flushExample 7) = 101 \<and>
   flushCommandBuffer flushExample 0 256 = Inr (flushed, 8) \<and>
   gpuQueue flushed = [7] \<and>
   curSize (objects flushed 7) = 101 \<and> maxSize (objects flushed 7) = 101 \<and>
   hostMemory flushed (4096 + 101) = 0 \<and>
   byte_swap 0xBEEF2929 \<noteq> 0 \<and>
   buffer (objects flushed 8) = 4096 + 101"
  using flush_eval2
  by (simp add: flushExample_def flushed_def exampleState_def leaseAt_def zeroMemory_def
        byte_swap_def)

subsection \<open>Initialisation\<close>

lemma allocateFromPool_fresh:
  assumes "256 \<le> uint sz"
  shows "allocateFromPool
      (r\<lparr>sBufferPoolBase := base, sBufferPoolEnd := base + uint sz,
         sBufferPoolHeadPtr := base, sBufferPoolTailPtr := nullptr\<rparr>) 0x100 a =
     Inr (r\<lparr>sBufferPoolBase := base, sBufferPoolEnd := base + uint sz,
            sBufferPoolHeadPtr := base + uint (min 0x20000 sz), sBufferPoolTailPtr := base\<rparr>,
          base, min 0x20000 sz)"
  using assms by (simp add: allocateFromPool_def grant_def Let_def cast_u32_def)

lemma allocateBufferObj_nonnull:
  "allocateBufferObj s = (s', cb) \<Longrightarrow> cb \<noteq> 0"
  by (auto simp: allocateBufferObj_def Let_def split: if_splits)

lemma allocateBufferObj_frame:
  "allocateBufferObj s = (s', cb) \<Longrightarrow>
     ring s' = ring s \<and> sBufferPoolLeased s' = sBufferPoolLeased s \<and>
     sActiveBuffer s' = sActiveBuffer s \<and> hostMemory s' = hostMemory s \<and>
     gpuQueue s' = gpuQueue s"
  by (auto simp: allocateBufferObj_def Let_def split: if_splits)

lemma init_eval1:
  "initCommandBufferPool (exampleState (ringAt 1024 4608 4352 5) True) 0 4096 0x40000 = Inl Abort"
  by (simp add: initCommandBufferPool_def allocateCommandBuffer_def exampleState_def Let_def)

lemma init_eval2:
  "initCommandBufferPool (exampleState (ringAt 1024 4608 4352 5) False) 0 4096 0x40000 =
     Inr initialised"
  by (simp add: initCommandBufferPool_def allocateCommandBuffer_def allocateLoop.simps
        allocateFromPool_def grant_def allocateBufferObj_def
        exampleState_def initialised_def ringAt_def leaseAt_def newBuffer_def
        Let_def nullptr_def cast_u32_def)

text \<open>
  Claim C7, as the code has it. \<^verbatim>\<open>initCommandBufferPool(base, size)\<close>, called on the
  main graphics core with a non-null base and at least 256 words, sets
  \<open>base\<close>, \<open>end = base + size\<close>, \<open>head = base\<close> and \<open>tail = nullptr\<close>, leaves
  \<open>skipped\<close> and the lease flag as they were, and then requests the initial
  256-word lease. If the lease flag was set the request aborts. Otherwise the
  lease starts at the base, has \<open>min(0x20000, size)\<close> words, becomes the active
  buffer of the core, and the lease flag is set; \<open>skipped\<close> still has its prior
  value.
\<close>

theorem initCommandBufferPool_behaviour:
  assumes main: "mainCoreId s = core" and base: "base \<noteq> nullptr" and sz: "256 \<le> uint sz"
  shows
    "initCommandBufferPool s core base sz =
       (case allocateCommandBuffer
               (s\<lparr>ring := (ring s)
                    \<lparr>sBufferPoolBase := base, sBufferPoolEnd := base + uint sz,
                     sBufferPoolHeadPtr := base, sBufferPoolTailPtr := nullptr\<rparr>\<rparr>) core 0x100 of
          Inl e \<Rightarrow> Inl e
        | Inr (s2, cb) \<Rightarrow> Inr (s2\<lparr>sActiveBuffer := (sActiveBuffer s2)(core := cb)\<rparr>)) \<and>
     (sBufferPoolLeased s \<longrightarrow> initCommandBufferPool s core base sz = Inl Abort) \<and>
     (\<not> sBufferPoolLeased s \<longrightarrow>
        (\<exists>s'. initCommandBufferPool s core base sz = Inr s' \<and>
           ring s' = (ring s)
             \<lparr>sBufferPoolBase := base, sBufferPoolEnd := base + uint sz,
              sBufferPoolHeadPtr := base + uint (min 0x20000 sz),
              sBufferPoolTailPtr := base\<rparr> \<and>
           sBufferPoolSkipped (ring s') = sBufferPoolSkipped (ring s) \<and>
           sBufferPoolLeased s' \<and>
           sActiveBuffer s' core \<noteq> 0 \<and>
           buffer (objects s' (sActiveBuffer s' core)) = base \<and>
           curSize (objects s' (sActiveBuffer s' core)) = 0 \<and>
           maxSize (objects s' (sActiveBuffer s' core)) = min 0x20000 sz \<and>
           \<not> displayList (objects s' (sActiveBuffer s' core))))"
proof (intro conjI impI)
  let ?s1 = "s\<lparr>ring := (ring s)
      \<lparr>sBufferPoolBase := base, sBufferPoolEnd := base + uint sz,
       sBufferPoolHeadPtr := base, sBufferPoolTailPtr := nullptr\<rparr>\<rparr>"
  let ?r = "(ring s)
      \<lparr>sBufferPoolBase := base, sBufferPoolEnd := base + uint sz,
       sBufferPoolHeadPtr := base + uint (min 0x20000 sz), sBufferPoolTailPtr := base\<rparr>"
  show eq: "initCommandBufferPool s core base sz =
       (case allocateCommandBuffer ?s1 core 0x100 of
          Inl e \<Rightarrow> Inl e
        | Inr (s2, cb) \<Rightarrow> Inr (s2\<lparr>sActiveBuffer := (sActiveBuffer s2)(core := cb)\<rparr>))"
    using main by (simp add: initCommandBufferPool_def Let_def)
  {
    assume "sBufferPoolLeased s"
    then show "initCommandBufferPool s core base sz = Inl Abort"
      by (simp add: eq allocateCommandBuffer_def)
  }
  assume nl: "\<not> sBufferPoolLeased s"
  have loop: "allocateLoop ?s1 0x100 0 = Inr (?s1\<lparr>ring := ?r\<rparr>, base, min 0x20000 sz)"
    using allocateFromPool_fresh [OF sz, where r = "ring s" and base = base and a = 0] base
    by (simp add: allocateLoop.simps [of ?s1])
  obtain s2 cb where obj: "allocateBufferObj (?s1\<lparr>ring := ?r\<rparr>) = (s2, cb)"
    by (cases "allocateBufferObj (?s1\<lparr>ring := ?r\<rparr>)")
  from allocateBufferObj_nonnull [OF obj] have cb: "cb \<noteq> 0" .
  from allocateBufferObj_frame [OF obj] have fr: "ring s2 = ?r" by simp
  let ?s3 = "s2\<lparr>objects := (objects s2)
       (cb := (objects s2 cb)\<lparr>displayList := False, submitTime := 0, curSize := 0,
                             maxSize := min 0x20000 sz, buffer := base\<rparr>),
     sBufferPoolLeased := True\<rparr>"
  have ac: "allocateCommandBuffer ?s1 core 0x100 = Inr (?s3, cb)"
    using nl main loop obj by (simp add: allocateCommandBuffer_def)
  have res: "initCommandBufferPool s core base sz =
      Inr (?s3\<lparr>sActiveBuffer := (sActiveBuffer ?s3)(core := cb)\<rparr>)"
    by (simp add: eq ac)
  show "\<exists>s'. initCommandBufferPool s core base sz = Inr s' \<and>
           ring s' = ?r \<and>
           sBufferPoolSkipped (ring s') = sBufferPoolSkipped (ring s) \<and>
           sBufferPoolLeased s' \<and>
           sActiveBuffer s' core \<noteq> 0 \<and>
           buffer (objects s' (sActiveBuffer s' core)) = base \<and>
           curSize (objects s' (sActiveBuffer s' core)) = 0 \<and>
           maxSize (objects s' (sActiveBuffer s' core)) = min 0x20000 sz \<and>
           \<not> displayList (objects s' (sActiveBuffer s' core))"
    using cb fr by (intro exI [of _ "?s3\<lparr>sActiveBuffer := (sActiveBuffer ?s3)(core := cb)\<rparr>"])
      (simp add: res)
qed

theorem initCommandBufferPool_behaviour_witness:
  "mainCoreId (exampleState (ringAt 1024 4608 4352 5) False) = 0 \<and>
   (4096 :: ptr) \<noteq> nullptr \<and> 256 \<le> uint (0x40000 :: u32) \<and>
   \<not> sBufferPoolLeased (exampleState (ringAt 1024 4608 4352 5) False) \<and>
   initCommandBufferPool (exampleState (ringAt 1024 4608 4352 5) False) 0 4096 0x40000 =
     Inr initialised \<and>
   sBufferPoolSkipped (ring initialised) = 5 \<and>
   sBufferPoolLeased (exampleState (ringAt 1024 4608 4352 5) True) \<and>
   initCommandBufferPool (exampleState (ringAt 1024 4608 4352 5) True) 0 4096 0x40000 =
     Inl Abort"
proof -
  let ?s = "exampleState (ringAt 1024 4608 4352 5) False"
  let ?t = "exampleState (ringAt 1024 4608 4352 5) True"
  have h: "mainCoreId ?s = 0" "(4096 :: ptr) \<noteq> nullptr" "256 \<le> uint (0x40000 :: u32)"
    and h': "mainCoreId ?t = 0"
    by (simp_all add: exampleState_def nullptr_def)
  have l: "\<not> sBufferPoolLeased ?s" "sBufferPoolLeased ?t"
    by (simp_all add: exampleState_def)
  have k: "sBufferPoolSkipped (ring ?s) = 5"
    by (simp add: exampleState_def ringAt_def)
  from initCommandBufferPool_behaviour [OF h] initCommandBufferPool_behaviour [OF h' h(2,3)]
    init_eval2 h l k
  show ?thesis by auto
qed

text \<open>
  Claim C7 as the specification words it has \<open>skipped\<close> set to 0 and the lease
  flag cleared whatever their prior values. With \<open>skipped = 5\<close> before the call,
  \<open>skipped\<close> is 5 after it; with the lease flag set before the call, the call
  aborts.
\<close>

theorem initCommandBufferPool_keeps_skipped_counterexample:
  "\<not> sBufferPoolLeased (exampleState (ringAt 1024 4608 4352 5) False) \<and>
   initCommandBufferPool (exampleState (ringAt 1024 4608 4352 5) False) 0 4096 0x40000 =
     Inr initialised \<and>
   sBufferPoolSkipped (ring initialised) = 5 \<and>
   sBufferPoolLeased (exampleState (ringAt 1024 4608 4352 5) True) \<and>
   initCommandBufferPool (exampleState (ringAt 1024 4608 4352 5) True) 0 4096 0x40000 =
     Inl Abort"
  using init_eval1 init_eval2
  by (simp add: exampleState_def initialised_def ringAt_def)

end
